theory Spec2Isabelle
  imports Main "HOL-Library.Multiset"
begin

section \<open>Outbound mail: domain rotation, quota windows and the delivery policy\<close>

text \<open>
  A shallow embedding of \<^verbatim>\<open>backend/src/services/domainService.ts\<close> and
  \<^verbatim>\<open>backend/src/services/mailService.ts\<close>.

  Conventions of the embedding.
  \<^item> A MongoDB \<^verbatim>\<open>ObjectId\<close> is a natural number. The hexadecimal string that
    \<^verbatim>\<open>toString()\<close> produces and \<^verbatim>\<open>new ObjectId(s)\<close> reads back denotes the same
    identifier, so \<^verbatim>\<open>DomainConfig.id\<close> is the identifier itself.
  \<^item> A \<^verbatim>\<open>Date\<close> is its \<^verbatim>\<open>getTime()\<close>: an integer number of milliseconds.
    \<^verbatim>\<open>created_at\<close> (an ISO rendering of a date) is kept as that integer.
  \<^item> The numbers \<^verbatim>\<open>limit\<close>, \<^verbatim>\<open>order\<close>, \<^verbatim>\<open>count\<close> and \<^verbatim>\<open>port\<close> are integers.
  \<^item> The two collections are lists in storage (insertion) order; the store itself
    answers every request (a lost database connection is not modelled).
  \<^item> Every \<^verbatim>\<open>new Date()\<close> is one reading of the system clock: the world carries
    the sequence of readings and the number of readings taken so far.
  \<^item> The mail transports are outside the program. Their answers are parameters
    (a record of functions from the history of calls and the request to an answer),
    and every call made to them is appended to the trace of the world, as are the two
    calls that \<^verbatim>\<open>MailService\<close> makes into \<^verbatim>\<open>DomainService\<close>.
\<close>

subsection \<open>Data\<close>

type_synonym oid = nat

record DomainConfig =
  dc_id :: oid
  dc_host :: string
  dc_port :: int
  dc_secure :: bool
  dc_username :: string
  dc_password :: string
  dc_from :: string
  dc_limit :: int
  dc_order :: int
  dc_created_at :: int

record DomainUsage =
  u_id :: oid
  u_domain_id :: oid
  u_window_start :: int
  u_count :: int

text \<open>The argument of \<^verbatim>\<open>addDomain\<close>: a configuration without \<^verbatim>\<open>id\<close> and
  \<^verbatim>\<open>created_at\<close>, whose \<^verbatim>\<open>order\<close> is optional.\<close>

record DomainInput =
  in_host :: string
  in_port :: int
  in_secure :: bool
  in_username :: string
  in_password :: string
  in_from :: string
  in_limit :: int
  in_order :: "int option"

record smtp_request =
  sm_host :: string
  sm_port :: "int option"
  sm_secure :: bool
  sm_user :: string
  sm_pass :: string
  sm_from :: string
  sm_to :: string
  sm_subject :: string
  sm_text :: "string option"
  sm_html :: "string option"

record mailchimp_request =
  mc_from_email :: string
  mc_subject :: string
  mc_text :: "string option"
  mc_html :: "string option"
  mc_to :: string

record smtpdev_post =
  sp_account :: string
  sp_mailbox :: string
  sp_api_key :: string
  sp_to :: string
  sp_from :: string
  sp_subject :: string
  sp_text :: string
  sp_html :: string

record smtpdev_get =
  sg_account :: string
  sg_mailbox :: string
  sg_api_key :: string

datatype event =
    MailchimpSend mailchimp_request
  | GetNextAvailableDomainCall
  | SmtpSendMail smtp_request
  | RecordUsageCall oid
  | SmtpDevPost smtpdev_post
  | SmtpDevGet smtpdev_get

text \<open>
  The errors that reach a caller. \<open>ConfigurationError\<close> is the
  \<^verbatim>\<open>Error('Mailchimp API key and server prefix must be provided ...')\<close> of the premium
  branch, \<open>TransportExhausted\<close> the \<^verbatim>\<open>Error('No email transport configured or free
  tier quota exhausted ...')\<close> at the end of \<^verbatim>\<open>sendEmail\<close>, and \<open>TransportFailure\<close>
  a rejection raised by a transport, with the transport's own description of it.
\<close>

datatype error = ConfigurationError | TransportFailure string | TransportExhausted

datatype reply = Reply string

record world =
  smtp_domains :: "DomainConfig list"
  smtp_domain_usage :: "DomainUsage list"
  next_oid :: oid
  clock :: "nat \<Rightarrow> int"
  reads :: nat
  trace :: "event list"

record 'm transports =
  mailchimp_send :: "event list \<Rightarrow> mailchimp_request \<Rightarrow> error + reply"
  smtp_sendMail :: "event list \<Rightarrow> smtp_request \<Rightarrow> error + reply"
  smtpdev_post_messages :: "event list \<Rightarrow> smtpdev_post \<Rightarrow> error + reply"
  smtpdev_get_messages :: "event list \<Rightarrow> smtpdev_get \<Rightarrow> error + 'm list option"

record environment =
  MAILCHIMP_API_KEY :: "string option"
  MAILCHIMP_SERVER_PREFIX :: "string option"
  SENDER_EMAIL :: "string option"
  SMTP_HOST :: "string option"
  SMTP_PORT :: "string option"
  SMTP_USERNAME :: "string option"
  SMTP_PASSWORD :: "string option"
  SMTPDEV_API_KEY :: "string option"
  SMTPDEV_ACCOUNT_ID :: "string option"
  SMTPDEV_MAILBOX_ID :: "string option"

record user =
  user_id :: string
  roles :: "string list option"

record message =
  msg_to :: string
  msg_subject :: string
  msg_text :: "string option"
  msg_html :: "string option"

subsection \<open>The clock and the store\<close>

definition newDate :: "world \<Rightarrow> int \<times> world" where
  "newDate w = (clock w (reads w), w\<lparr>reads := Suc (reads w)\<rparr>)"

text \<open>\<^verbatim>\<open>findOne({ domain_id })\<close>: the first matching document in storage order.\<close>

definition findOneUsage :: "oid \<Rightarrow> DomainUsage list \<Rightarrow> DomainUsage option" where
  "findOneUsage domId us = find (\<lambda>u. u_domain_id u = domId) us"

text \<open>\<^verbatim>\<open>updateOne({ _id }, { $set: { window_start, count } })\<close>: the first document
  with that \<^verbatim>\<open>_id\<close> is updated, and nothing happens when there is none.\<close>

fun updateOneUsage :: "oid \<Rightarrow> int \<Rightarrow> int \<Rightarrow> DomainUsage list \<Rightarrow> DomainUsage list" where
  "updateOneUsage i ws c [] = []"
| "updateOneUsage i ws c (u # us) =
     (if u_id u = i then u\<lparr>u_window_start := ws, u_count := c\<rparr> # us
      else u # updateOneUsage i ws c us)"

subsection \<open>DomainService\<close>

text \<open>\<^verbatim>\<open>find().sort({ order: 1 }).toArray()\<close>: ascending \<^verbatim>\<open>order\<close>, documents of
  equal \<^verbatim>\<open>order\<close> in storage order.\<close>

definition getDomains :: "world \<Rightarrow> DomainConfig list" where
  "getDomains w = sort_key dc_order (smtp_domains w)"

text \<open>\<^verbatim>\<open>addDomain\<close> answers \<^verbatim>\<open>null\<close> (\<open>None\<close>) from its \<^verbatim>\<open>catch\<close> when the store
  raises; the store of this model always answers, so the answer is the inserted document.
  The default \<^verbatim>\<open>order\<close> is \<^verbatim>\<open>countDocuments()\<close>, the number of stored domains.\<close>

definition addDomain :: "DomainInput \<Rightarrow> world \<Rightarrow> DomainConfig option \<times> world" where
  "addDomain config w =
     (let order' = (case in_order config of
                      None \<Rightarrow> int (length (smtp_domains w))
                    | Some k \<Rightarrow> k);
          (created, w1) = newDate w;
          doc = \<lparr>dc_id = next_oid w1, dc_host = in_host config, dc_port = in_port config,
                 dc_secure = in_secure config, dc_username = in_username config,
                 dc_password = in_password config, dc_from = in_from config,
                 dc_limit = in_limit config, dc_order = order', dc_created_at = created\<rparr>
      in (Some doc, w1\<lparr>smtp_domains := smtp_domains w1 @ [doc],
                       next_oid := Suc (next_oid w1)\<rparr>))"

definition getUsageDoc :: "oid \<Rightarrow> world \<Rightarrow> DomainUsage \<times> world" where
  "getUsageDoc domId w =
     (case findOneUsage domId (smtp_domain_usage w) of
        Some usage \<Rightarrow> (usage, w)
      | None \<Rightarrow>
          (let (now, w1) = newDate w;
               newUsage = \<lparr>u_id = next_oid w1, u_domain_id = domId,
                           u_window_start = now, u_count = 0\<rparr>
           in (newUsage, w1\<lparr>smtp_domain_usage := smtp_domain_usage w1 @ [newUsage],
                             next_oid := Suc (next_oid w1)\<rparr>)))"

record quota =
  available :: bool
  usage :: DomainUsage

definition hasQuota :: "DomainConfig \<Rightarrow> world \<Rightarrow> quota \<times> world" where
  "hasQuota domain w =
     (let (usage0, w1) = getUsageDoc (dc_id domain) w;
          (now, w2) = newDate w1;
          elapsed = now - u_window_start usage0
      in if elapsed \<ge> 60 * 60 * 1000 then
           (let usage1 = usage0\<lparr>u_window_start := now, u_count := 0\<rparr>;
                w3 = w2\<lparr>smtp_domain_usage :=
                          updateOneUsage (u_id usage1) (u_window_start usage1) (u_count usage1)
                            (smtp_domain_usage w2)\<rparr>
            in (\<lparr>available = u_count usage1 < dc_limit domain, usage = usage1\<rparr>, w3))
         else (\<lparr>available = u_count usage0 < dc_limit domain, usage = usage0\<rparr>, w2))"

definition incrementUsage :: "oid \<Rightarrow> world \<Rightarrow> world" where
  "incrementUsage domainId w =
     (let (usage0, w1) = getUsageDoc domainId w;
          (now, w2) = newDate w1;
          elapsed = now - u_window_start usage0;
          usage1 = (if elapsed \<ge> 60 * 60 * 1000
                    then usage0\<lparr>u_window_start := now, u_count := 1\<rparr>
                    else usage0\<lparr>u_count := u_count usage0 + 1\<rparr>)
      in w2\<lparr>smtp_domain_usage :=
               updateOneUsage (u_id usage1) (u_window_start usage1) (u_count usage1)
                 (smtp_domain_usage w2)\<rparr>)"

text \<open>The \<^verbatim>\<open>for ... of\<close> loop of \<^verbatim>\<open>getNextAvailableDomain\<close>.\<close>

fun firstAvailable :: "DomainConfig list \<Rightarrow> world \<Rightarrow> DomainConfig option \<times> world" where
  "firstAvailable [] w = (None, w)"
| "firstAvailable (domain # domains) w =
     (let (q, w1) = hasQuota domain w
      in if available q then (Some domain, w1) else firstAvailable domains w1)"

definition getNextAvailableDomain :: "world \<Rightarrow> DomainConfig option \<times> world" where
  "getNextAvailableDomain w = firstAvailable (getDomains w) w"

definition recordUsage :: "oid \<Rightarrow> world \<Rightarrow> world" where
  "recordUsage domainId w = incrementUsage domainId w"

subsection \<open>JavaScript values\<close>

text \<open>An environment variable is \<^verbatim>\<open>undefined\<close> or a string; it is truthy when it is
  a non-empty string.\<close>

definition truthy :: "string option \<Rightarrow> bool" where
  "truthy v = (case v of None \<Rightarrow> False | Some s \<Rightarrow> s \<noteq> [])"

text \<open>\<^verbatim>\<open>v || d\<close> for a default string \<^verbatim>\<open>d\<close>.\<close>

definition or_default :: "string option \<Rightarrow> string \<Rightarrow> string" where
  "or_default v d = (case v of None \<Rightarrow> d | Some s \<Rightarrow> if s = [] then d else s)"

text \<open>\<^verbatim>\<open>v || undefined\<close>.\<close>

definition or_undefined :: "string option \<Rightarrow> string option" where
  "or_undefined v = (case v of None \<Rightarrow> None | Some s \<Rightarrow> if s = [] then None else Some s)"

text \<open>The string held by a variable that has been tested truthy.\<close>

definition str_of :: "string option \<Rightarrow> string" where
  "str_of v = or_default v []"

definition js_whitespace :: "char \<Rightarrow> bool" where
  "js_whitespace c = (c \<in> set [CHR '' '', CHR 0x09, CHR 0x0A, CHR 0x0B, CHR 0x0C, CHR 0x0D])"

definition is_digit :: "char \<Rightarrow> bool" where
  "is_digit c = (48 \<le> (of_char c :: nat) \<and> (of_char c :: nat) \<le> 57)"

text \<open>\<^verbatim>\<open>parseInt(s, 10)\<close>: leading white space, an optional sign, then the longest
  run of decimal digits; \<open>None\<close> is \<^verbatim>\<open>NaN\<close>.\<close>

definition parseInt10 :: "string \<Rightarrow> int option" where
  "parseInt10 s =
     (let t = dropWhile js_whitespace s;
          neg = (case t of [] \<Rightarrow> False | c # _ \<Rightarrow> c = CHR ''-'');
          r = (case t of [] \<Rightarrow> [] | c # cs \<Rightarrow> if c = CHR ''-'' \<or> c = CHR ''+'' then cs else t);
          ds = takeWhile is_digit r;
          n = int (foldl (\<lambda>a c. 10 * a + (of_char c - 48)) (0::nat) ds)
      in if ds = [] then None else Some (if neg then - n else n))"

subsection \<open>MailService\<close>

definition isPro :: "user \<Rightarrow> bool" where
  "isPro u = (case roles u of None \<Rightarrow> False | Some rs \<Rightarrow> ''pro'' \<in> set rs)"

definition log_event :: "event \<Rightarrow> world \<Rightarrow> world" where
  "log_event e w = w\<lparr>trace := trace w @ [e]\<rparr>"

definition domain_request :: "DomainConfig \<Rightarrow> message \<Rightarrow> smtp_request" where
  "domain_request domain m =
     \<lparr>sm_host = dc_host domain, sm_port = Some (dc_port domain), sm_secure = dc_secure domain,
      sm_user = dc_username domain, sm_pass = dc_password domain, sm_from = dc_from domain,
      sm_to = msg_to m, sm_subject = msg_subject m,
      sm_text = or_undefined (msg_text m), sm_html = or_undefined (msg_html m)\<rparr>"

definition static_request :: "environment \<Rightarrow> message \<Rightarrow> smtp_request" where
  "static_request env m =
     \<lparr>sm_host = str_of (SMTP_HOST env),
      sm_port = parseInt10 (str_of (SMTP_PORT env)),
      sm_secure = (parseInt10 (str_of (SMTP_PORT env)) = Some 465),
      sm_user = str_of (SMTP_USERNAME env), sm_pass = str_of (SMTP_PASSWORD env),
      sm_from = or_default (SENDER_EMAIL env) ''no-reply@cocoinbox.app'',
      sm_to = msg_to m, sm_subject = msg_subject m,
      sm_text = or_undefined (msg_text m), sm_html = or_undefined (msg_html m)\<rparr>"

definition smtpdev_request :: "environment \<Rightarrow> message \<Rightarrow> smtpdev_post" where
  "smtpdev_request env m =
     \<lparr>sp_account = str_of (SMTPDEV_ACCOUNT_ID env), sp_mailbox = str_of (SMTPDEV_MAILBOX_ID env),
      sp_api_key = str_of (SMTPDEV_API_KEY env),
      sp_to = msg_to m,
      sp_from = or_default (SENDER_EMAIL env) ''no-reply@cocoinbox.app'',
      sp_subject = msg_subject m,
      sp_text = or_default (msg_text m) [], sp_html = or_default (msg_html m) []\<rparr>"

definition premium_request :: "environment \<Rightarrow> message \<Rightarrow> mailchimp_request" where
  "premium_request env m =
     \<lparr>mc_from_email = or_default (SENDER_EMAIL env) ''no-reply@cocoinbox.app'',
      mc_subject = msg_subject m,
      mc_text = or_undefined (msg_text m), mc_html = or_undefined (msg_html m),
      mc_to = msg_to m\<rparr>"

text \<open>Lines 101 to 154 of \<^verbatim>\<open>sendEmail\<close>: the transport configured in the
  environment, then the smtp.dev API, then the final \<^verbatim>\<open>throw\<close>. Neither call is
  inside a \<^verbatim>\<open>try\<close>: what the transport answers, a rejection too, is what
  \<^verbatim>\<open>sendEmail\<close> answers.\<close>

definition sendFallback ::
  "'m transports \<Rightarrow> environment \<Rightarrow> message \<Rightarrow> world \<Rightarrow> (error + reply) \<times> world" where
  "sendFallback T env m w =
     (if truthy (SMTP_HOST env) \<and> truthy (SMTP_PORT env) \<and>
         truthy (SMTP_USERNAME env) \<and> truthy (SMTP_PASSWORD env) then
        (let req = static_request env m
         in (smtp_sendMail T (trace w) req, log_event (SmtpSendMail req) w))
      else if truthy (SMTPDEV_API_KEY env) \<and> truthy (SMTPDEV_ACCOUNT_ID env) \<and>
              truthy (SMTPDEV_MAILBOX_ID env) then
        (let req = smtpdev_request env m
         in (smtpdev_post_messages T (trace w) req, log_event (SmtpDevPost req) w))
      else (Inl TransportExhausted, w))"

text \<open>\<^verbatim>\<open>sendEmail\<close>. The premium branch (lines 46 to 63) throws when a Mailchimp value
  is falsy and otherwise answers what the provider answers. The free-tier branch first
  runs the \<^verbatim>\<open>try\<close> of lines 70 to 99: a rejection by the domain's transport is caught
  there and control continues with the fallbacks, as it does when the allocator finds no
  domain.\<close>

definition sendEmail ::
  "'m transports \<Rightarrow> environment \<Rightarrow> user \<Rightarrow> message \<Rightarrow> world \<Rightarrow> (error + reply) \<times> world" where
  "sendEmail T env u m w =
     (if isPro u then
        (if \<not> truthy (MAILCHIMP_API_KEY env) \<or> \<not> truthy (MAILCHIMP_SERVER_PREFIX env) then
           (Inl ConfigurationError, w)
         else
           (let req = premium_request env m
            in (mailchimp_send T (trace w) req, log_event (MailchimpSend req) w)))
      else
        (let (found, w1) = getNextAvailableDomain (log_event GetNextAvailableDomainCall w)
         in case found of
              Some domain \<Rightarrow>
                (let req = domain_request domain m;
                     w2 = log_event (SmtpSendMail req) w1
                 in case smtp_sendMail T (trace w1) req of
                      Inr info \<Rightarrow>
                        (Inr info,
                         recordUsage (dc_id domain)
                           (log_event (RecordUsageCall (dc_id domain)) w2))
                    | Inl e \<Rightarrow> sendFallback T env m w2)
            | None \<Rightarrow> sendFallback T env m w1))"

definition receiveEmails ::
  "'m transports \<Rightarrow> environment \<Rightarrow> user \<Rightarrow> world \<Rightarrow> (error + 'm list) \<times> world" where
  "receiveEmails T env u w =
     (if isPro u then (Inr [], w)
      else if truthy (SMTPDEV_API_KEY env) \<and> truthy (SMTPDEV_ACCOUNT_ID env) \<and>
              truthy (SMTPDEV_MAILBOX_ID env) then
        (let req = \<lparr>sg_account = str_of (SMTPDEV_ACCOUNT_ID env),
                    sg_mailbox = str_of (SMTPDEV_MAILBOX_ID env),
                    sg_api_key = str_of (SMTPDEV_API_KEY env)\<rparr>
         in (case smtpdev_get_messages T (trace w) req of
               Inl e \<Rightarrow> Inl e
             | Inr member \<Rightarrow> Inr (case member of None \<Rightarrow> [] | Some ms \<Rightarrow> ms),
             log_event (SmtpDevGet req) w))
      else (Inr [], w))"

subsection \<open>Well-formed stores, the checks of one allocation, and sample values\<close>

text \<open>MongoDB keeps \<^verbatim>\<open>_id\<close> unique in a collection and every \<^verbatim>\<open>insertOne\<close> draws a
  fresh one: the identifiers of the usage documents are pairwise distinct and below the
  next identifier to be drawn.\<close>

definition usage_ids_ok :: "world \<Rightarrow> bool" where
  "usage_ids_ok w = (distinct (map u_id (smtp_domain_usage w)) \<and>
                     (\<forall>u \<in> set (smtp_domain_usage w). u_id u < next_oid w))"

text \<open>The availability checks of one allocation run one after the other, each in the
  world its predecessors left: \<open>world_before_check ds w k\<close> is the world in which the
  domain at position \<open>k\<close> of \<open>ds\<close> is checked, and \<open>check_reports ds w k\<close> the verdict
  of that check.\<close>

definition world_before_check :: "DomainConfig list \<Rightarrow> world \<Rightarrow> nat \<Rightarrow> world" where
  "world_before_check ds w k = foldl (\<lambda>w' d. snd (hasQuota d w')) w (take k ds)"

definition check_reports :: "DomainConfig list \<Rightarrow> world \<Rightarrow> nat \<Rightarrow> bool" where
  "check_reports ds w k = available (fst (hasQuota (ds ! k) (world_before_check ds w k)))"

text \<open>Sample values, on which the theorems below are exercised.\<close>

definition example_domain :: "nat \<Rightarrow> DomainConfig" where
  "example_domain k =
     \<lparr>dc_id = k, dc_host = ''smtp.example.org'', dc_port = 587, dc_secure = False,
      dc_username = ''relay'', dc_password = ''secret'', dc_from = ''noreply@example.org'',
      dc_limit = 1, dc_order = int k, dc_created_at = 0\<rparr>"

definition example_usage :: "nat \<Rightarrow> int \<Rightarrow> int \<Rightarrow> DomainUsage" where
  "example_usage k ws c = \<lparr>u_id = 10 + k, u_domain_id = k, u_window_start = ws, u_count = c\<rparr>"

definition example_world :: "DomainConfig list \<Rightarrow> DomainUsage list \<Rightarrow> (nat \<Rightarrow> int) \<Rightarrow> world" where
  "example_world ds us c =
     \<lparr>smtp_domains = ds, smtp_domain_usage = us, next_oid = 20, clock = c, reads = 0,
      trace = []\<rparr>"

definition example_input :: DomainInput where
  "example_input =
     \<lparr>in_host = ''smtp.example.org'', in_port = 587, in_secure = False,
      in_username = ''relay'', in_password = ''secret'', in_from = ''noreply@example.org'',
      in_limit = 1, in_order = None\<rparr>"

definition example_user :: user where
  "example_user = \<lparr>user_id = ''u1'', roles = Some [''user'']\<rparr>"

definition premium_user :: user where
  "premium_user = \<lparr>user_id = ''u2'', roles = Some [''user'', ''pro'']\<rparr>"

definition example_message :: message where
  "example_message =
     \<lparr>msg_to = ''bob@example.org'', msg_subject = ''hello'', msg_text = Some ''hi'',
      msg_html = None\<rparr>"

definition env_none :: environment where
  "env_none =
     \<lparr>MAILCHIMP_API_KEY = None, MAILCHIMP_SERVER_PREFIX = None, SENDER_EMAIL = None,
      SMTP_HOST = None, SMTP_PORT = None, SMTP_USERNAME = None, SMTP_PASSWORD = None,
      SMTPDEV_API_KEY = None, SMTPDEV_ACCOUNT_ID = None, SMTPDEV_MAILBOX_ID = None\<rparr>"

definition env_static :: environment where
  "env_static =
     env_none\<lparr>SMTP_HOST := Some ''mail.example.org'', SMTP_PORT := Some ''465'',
               SMTP_USERNAME := Some ''svc'', SMTP_PASSWORD := Some ''pw''\<rparr>"

definition env_static_and_smtpdev :: environment where
  "env_static_and_smtpdev =
     env_static\<lparr>SMTPDEV_API_KEY := Some ''key'', SMTPDEV_ACCOUNT_ID := Some ''acct'',
                 SMTPDEV_MAILBOX_ID := Some ''box''\<rparr>"

definition example_transports :: "error + reply \<Rightarrow> string transports" where
  "example_transports smtp_answer =
     \<lparr>mailchimp_send = (\<lambda>h r. Inr (Reply ''mailchimp'')),
      smtp_sendMail = (\<lambda>h r. smtp_answer),
      smtpdev_post_messages = (\<lambda>h r. Inr (Reply ''smtp.dev'')),
      smtpdev_get_messages = (\<lambda>h r. Inr (Some [''m1'', ''m2'']))\<rparr>"

section \<open>Auxiliary facts\<close>

lemmas example_defs = example_user_def premium_user_def example_message_def env_none_def
  env_static_def env_static_and_smtpdev_def example_transports_def example_world_def
  example_domain_def example_usage_def

lemmas run_defs = sendEmail_def sendFallback_def getNextAvailableDomain_def getDomains_def
  hasQuota_def getUsageDoc_def findOneUsage_def newDate_def recordUsage_def incrementUsage_def
  log_event_def Let_def

subsection \<open>The usage collection\<close>

lemma find_in_set: "find P xs = Some x \<Longrightarrow> x \<in> set xs \<and> P x"
  by (induction xs) (auto split: if_splits)

lemma map_u_id_updateOneUsage: "map u_id (updateOneUsage i ws c us) = map u_id us"
  by (induction us) auto

lemma set_updateOneUsage_ids:
  "u \<in> set (updateOneUsage i ws c us) \<Longrightarrow> u_id u \<in> u_id ` set us"
  using map_u_id_updateOneUsage[of i ws c us] by (metis image_eqI list.set_map)

lemma findOne_updateOne:
  "findOneUsage d us = Some u \<Longrightarrow> distinct (map u_id us) \<Longrightarrow>
   findOneUsage d (updateOneUsage (u_id u) ws c us) = Some (u\<lparr>u_window_start := ws, u_count := c\<rparr>)"
proof (induction us)
  case Nil
  then show ?case by (simp add: findOneUsage_def)
next
  case (Cons v us)
  show ?case
  proof (cases "u_domain_id v = d")
    case True
    with Cons.prems have "u = v" by (simp add: findOneUsage_def)
    with True show ?thesis by (simp add: findOneUsage_def)
  next
    case False
    with Cons.prems have f: "findOneUsage d us = Some u" by (simp add: findOneUsage_def)
    then have "u \<in> set us" using find_in_set by (fastforce simp: findOneUsage_def)
    with Cons.prems have ne: "u_id v \<noteq> u_id u" by auto
    from Cons.IH f Cons.prems have
      "findOneUsage d (updateOneUsage (u_id u) ws c us) = Some (u\<lparr>u_window_start := ws, u_count := c\<rparr>)"
      by simp
    with False ne show ?thesis by (simp add: findOneUsage_def)
  qed
qed

lemma findOne_append_new:
  "findOneUsage d us = None \<Longrightarrow> u_domain_id n = d \<Longrightarrow> findOneUsage d (us @ [n]) = Some n"
  by (induction us) (auto simp: findOneUsage_def split: if_splits)

lemma getUsageDoc_existing:
  "findOneUsage d (smtp_domain_usage w) = Some u \<Longrightarrow> getUsageDoc d w = (u, w)"
  by (simp add: getUsageDoc_def)

lemma getUsageDoc_found:
  assumes "usage_ids_ok w" and "getUsageDoc d w = (u, w1)"
  shows "findOneUsage d (smtp_domain_usage w1) = Some u \<and> usage_ids_ok w1 \<and>
         clock w1 = clock w \<and> smtp_domains w1 = smtp_domains w \<and> trace w1 = trace w"
proof (cases "findOneUsage d (smtp_domain_usage w)")
  case None
  define n where "n = \<lparr>u_id = next_oid w, u_domain_id = d,
                        u_window_start = clock w (reads w), u_count = 0\<rparr>"
  from None assms(2) have u: "u = n"
    and w1: "w1 = w\<lparr>reads := Suc (reads w), smtp_domain_usage := smtp_domain_usage w @ [n],
                     next_oid := Suc (next_oid w)\<rparr>"
    by (auto simp: getUsageDoc_def newDate_def Let_def n_def)
  have fresh: "\<forall>v \<in> set (smtp_domain_usage w). u_id v < next_oid w"
    using assms(1) by (simp add: usage_ids_ok_def)
  then have "next_oid w \<notin> u_id ` set (smtp_domain_usage w)" by auto
  with assms(1) fresh have "usage_ids_ok w1"
    by (auto simp: usage_ids_ok_def w1 n_def less_SucI)
  moreover have "findOneUsage d (smtp_domain_usage w1) = Some u"
    using None by (simp add: w1 u findOne_append_new n_def)
  ultimately show ?thesis by (simp add: w1)
next
  case (Some v)
  with assms show ?thesis by (simp add: getUsageDoc_def)
qed

lemma hasQuota_available_iff:
  "available (fst (hasQuota d w)) = (u_count (usage (fst (hasQuota d w))) < dc_limit d)"
  by (simp add: hasQuota_def Let_def split: prod.splits)

lemma hasQuota_within_window:
  assumes "findOneUsage (dc_id d) (smtp_domain_usage w) = Some u"
      and "clock w (reads w) - u_window_start u < 3600000"
  shows "hasQuota d w = (\<lparr>available = u_count u < dc_limit d, usage = u\<rparr>,
                         w\<lparr>reads := Suc (reads w)\<rparr>)"
  using assms by (simp add: hasQuota_def getUsageDoc_def newDate_def)

lemma incrementUsage_step:
  assumes ok: "usage_ids_ok w" and g: "getUsageDoc domId w = (u, w1)"
  shows "findOneUsage domId (smtp_domain_usage (incrementUsage domId w)) =
           Some (if 3600000 \<le> clock w1 (reads w1) - u_window_start u
                 then u\<lparr>u_window_start := clock w1 (reads w1), u_count := 1\<rparr>
                 else u\<lparr>u_count := u_count u + 1\<rparr>) \<and>
         usage_ids_ok (incrementUsage domId w) \<and>
         clock (incrementUsage domId w) = clock w \<and>
         reads (incrementUsage domId w) = Suc (reads w1)"
proof -
  from getUsageDoc_found[OF ok g] have f: "findOneUsage domId (smtp_domain_usage w1) = Some u"
    and ok1: "usage_ids_ok w1" and c: "clock w1 = clock w"
    by simp_all
  from ok1 have dist: "distinct (map u_id (smtp_domain_usage w1))"
    by (simp add: usage_ids_ok_def)
  have upd: "\<And>ws c. findOneUsage domId (updateOneUsage (u_id u) ws c (smtp_domain_usage w1))
      = Some (u\<lparr>u_window_start := ws, u_count := c\<rparr>)"
    using findOne_updateOne[OF f dist] by simp
  have okk: "\<And>ws c. usage_ids_ok (w1\<lparr>reads := Suc (reads w1), smtp_domain_usage :=
      updateOneUsage (u_id u) ws c (smtp_domain_usage w1)\<rparr>)"
    using ok1 set_updateOneUsage_ids
    by (fastforce simp: usage_ids_ok_def map_u_id_updateOneUsage)
  show ?thesis using g upd okk c
    by (simp add: incrementUsage_def newDate_def)
qed

subsection \<open>The allocation loop\<close>

lemma check_reports_0: "check_reports (d # ds) w 0 = available (fst (hasQuota d w))"
  by (simp add: check_reports_def world_before_check_def)

lemma check_reports_Suc:
  "check_reports (d # ds) w (Suc k) = check_reports ds (snd (hasQuota d w)) k"
  by (simp add: check_reports_def world_before_check_def)

lemma firstAvailable_None:
  "fst (firstAvailable ds w) = None \<Longrightarrow> k < length ds \<Longrightarrow> \<not> check_reports ds w k"
proof (induction ds arbitrary: w k)
  case Nil
  then show ?case by simp
next
  case (Cons d ds)
  show ?case
  proof (cases k)
    case 0
    with Cons.prems show ?thesis
      by (auto simp: check_reports_0 split: prod.splits if_splits)
  next
    case (Suc j)
    with Cons.prems have "fst (firstAvailable ds (snd (hasQuota d w))) = None" "j < length ds"
      by (auto split: prod.splits if_splits)
    from Cons.IH[OF this] Suc show ?thesis by (simp add: check_reports_Suc)
  qed
qed

lemma firstAvailable_Some:
  "fst (firstAvailable ds w) = Some x \<Longrightarrow>
   \<exists>k<length ds. x = ds ! k \<and> check_reports ds w k \<and> (\<forall>i<k. \<not> check_reports ds w i)"
proof (induction ds arbitrary: w)
  case Nil
  then show ?case by simp
next
  case (Cons d ds)
  show ?case
  proof (cases "available (fst (hasQuota d w))")
    case True
    with Cons.prems have "x = d" by (auto split: prod.splits)
    with True have "x = (d # ds) ! 0 \<and> check_reports (d # ds) w 0 \<and>
        (\<forall>i<0. \<not> check_reports (d # ds) w i)"
      by (simp add: check_reports_0)
    then show ?thesis by blast
  next
    case False
    with Cons.prems have "fst (firstAvailable ds (snd (hasQuota d w))) = Some x"
      by (auto split: prod.splits)
    from Cons.IH[OF this] obtain k where k: "k < length ds" "x = ds ! k"
        "check_reports ds (snd (hasQuota d w)) k"
        "\<forall>i<k. \<not> check_reports ds (snd (hasQuota d w)) i"
      by blast
    have "\<forall>i<Suc k. \<not> check_reports (d # ds) w i"
    proof (intro allI impI)
      fix i assume "i < Suc k"
      then show "\<not> check_reports (d # ds) w i"
        using False k(4) by (cases i) (simp_all add: check_reports_0 check_reports_Suc)
    qed
    with k have "Suc k < length (d # ds) \<and> x = (d # ds) ! Suc k \<and>
        check_reports (d # ds) w (Suc k) \<and> (\<forall>i<Suc k. \<not> check_reports (d # ds) w i)"
      by (simp add: check_reports_Suc)
    then show ?thesis by blast
  qed
qed

lemma firstAvailable_exhausted:
  "\<forall>k<length ds. \<exists>u. findOneUsage (dc_id (ds ! k)) (smtp_domain_usage w) = Some u \<and>
        dc_limit (ds ! k) \<le> u_count u \<and>
        clock w (reads w + k) - u_window_start u < 3600000 \<Longrightarrow>
   firstAvailable ds w = (None, w\<lparr>reads := reads w + length ds\<rparr>)"
proof (induction ds arbitrary: w)
  case Nil
  then show ?case by simp
next
  case (Cons d ds)
  from Cons.prems have "\<exists>u. findOneUsage (dc_id d) (smtp_domain_usage w) = Some u \<and>
        dc_limit d \<le> u_count u \<and> clock w (reads w) - u_window_start u < 3600000"
    by force
  then obtain u where u: "findOneUsage (dc_id d) (smtp_domain_usage w) = Some u"
      "dc_limit d \<le> u_count u" "clock w (reads w) - u_window_start u < 3600000"
    by blast
  let ?w1 = "w\<lparr>reads := Suc (reads w)\<rparr>"
  have h: "hasQuota d w = (\<lparr>available = u_count u < dc_limit d, usage = u\<rparr>, ?w1)"
    using u by (simp add: hasQuota_within_window)
  have "\<forall>k<length ds. \<exists>u. findOneUsage (dc_id (ds ! k)) (smtp_domain_usage ?w1) = Some u \<and>
        dc_limit (ds ! k) \<le> u_count u \<and>
        clock ?w1 (reads ?w1 + k) - u_window_start u < 3600000"
  proof (intro allI impI)
    fix k assume "k < length ds"
    then have "Suc k < length (d # ds)" by simp
    with Cons.prems obtain v where
      "findOneUsage (dc_id ((d # ds) ! Suc k)) (smtp_domain_usage w) = Some v \<and>
        dc_limit ((d # ds) ! Suc k) \<le> u_count v \<and>
        clock w (reads w + Suc k) - u_window_start v < 3600000"
      by blast
    then show "\<exists>u. findOneUsage (dc_id (ds ! k)) (smtp_domain_usage ?w1) = Some u \<and>
        dc_limit (ds ! k) \<le> u_count u \<and>
        clock ?w1 (reads ?w1 + k) - u_window_start u < 3600000"
      by auto
  qed
  from Cons.IH[OF this] have "firstAvailable ds ?w1 = (None, ?w1\<lparr>reads := reads ?w1 + length ds\<rparr>)" .
  with h u(2) show ?case by simp
qed

subsection \<open>What the allocator leaves in the trace\<close>

lemma trace_getUsageDoc: "trace (snd (getUsageDoc d w)) = trace w"
  by (simp add: getUsageDoc_def newDate_def Let_def split: option.splits)

lemma trace_hasQuota: "trace (snd (hasQuota d w)) = trace w"
proof (cases "getUsageDoc (dc_id d) w")
  case (Pair u w1)
  with trace_getUsageDoc[of "dc_id d" w] show ?thesis
    by (simp add: hasQuota_def newDate_def Let_def)
qed

lemma trace_firstAvailable: "trace (snd (firstAvailable ds w)) = trace w"
proof (induction ds arbitrary: w)
  case Nil
  then show ?case by simp
next
  case (Cons d ds)
  show ?case
  proof (cases "hasQuota d w")
    case (Pair q w1)
    with trace_hasQuota[of d w] Cons.IH[of w1] show ?thesis by simp
  qed
qed

lemma trace_getNextAvailableDomain: "trace (snd (getNextAvailableDomain w)) = trace w"
  by (simp add: getNextAvailableDomain_def trace_firstAvailable)

lemma trace_incrementUsage: "trace (incrementUsage d w) = trace w"
proof (cases "getUsageDoc d w")
  case (Pair u w1)
  with trace_getUsageDoc[of d w] show ?thesis
    by (simp add: incrementUsage_def newDate_def Let_def)
qed

lemma trace_after_allocation:
  assumes "getNextAvailableDomain (log_event GetNextAvailableDomainCall w) = (found, w1)"
  shows "trace w1 = trace w @ [GetNextAvailableDomainCall]"
  using trace_getNextAvailableDomain[of "log_event GetNextAvailableDomainCall w"] assms
  by (simp add: log_event_def)

subsection \<open>Sorting the registry\<close>

lemma insort_key_snoc:
  "f x \<le> f y \<Longrightarrow> \<forall>z \<in> set zs. f z \<le> f y \<Longrightarrow> insort_key f x (zs @ [y]) = insort_key f x zs @ [y]"
  by (induction zs) auto

lemma sort_key_snoc:
  "\<forall>x \<in> set xs. f x \<le> f y \<Longrightarrow> sort_key f (xs @ [y]) = sort_key f xs @ [y]"
proof (induction xs)
  case Nil
  then show ?case by simp
next
  case (Cons x xs)
  then have "sort_key f (xs @ [y]) = sort_key f xs @ [y]" by simp
  moreover have "\<forall>z \<in> set (sort_key f xs). f z \<le> f y" using Cons.prems by simp
  ultimately show ?case using Cons.prems by (simp add: insort_key_snoc)
qed

lemma sorted_three:
  assumes reg: "mset xs = {#d0, d1, d2#}"
      and ord: "dc_order d0 = 0" "dc_order d1 = 1" "dc_order d2 = 2"
  shows "sort_key dc_order xs = [d0, d1, d2]"
proof (rule properties_for_sort_key)
  show "mset [d0, d1, d2] = mset xs" using reg by simp
  show "sorted (map dc_order [d0, d1, d2])" using ord by simp
  fix k assume k: "k \<in> set [d0, d1, d2]"
  have "mset (filter (\<lambda>x. dc_order d0 = dc_order x) xs) = {#d0#}"
       "mset (filter (\<lambda>x. dc_order d1 = dc_order x) xs) = {#d1#}"
       "mset (filter (\<lambda>x. dc_order d2 = dc_order x) xs) = {#d2#}"
    using reg ord by simp_all
  then have "filter (\<lambda>x. dc_order d0 = dc_order x) xs = [d0]"
       "filter (\<lambda>x. dc_order d1 = dc_order x) xs = [d1]"
       "filter (\<lambda>x. dc_order d2 = dc_order x) xs = [d2]"
    by (simp_all only: mset_single_iff)
  with k ord show "filter (\<lambda>x. dc_order k = dc_order x) [d0, d1, d2] =
                   filter (\<lambda>x. dc_order k = dc_order x) xs"
    by auto
qed

subsection \<open>The free-tier branch of \<^verbatim>\<open>sendEmail\<close>\<close>

lemma sendEmail_free:
  assumes "\<not> isPro u" and "getNextAvailableDomain (log_event GetNextAvailableDomainCall w) = (found, w1)"
  shows "sendEmail T env u m w =
     (case found of
        Some domain \<Rightarrow>
          (case smtp_sendMail T (trace w1) (domain_request domain m) of
             Inr info \<Rightarrow>
               (Inr info,
                recordUsage (dc_id domain)
                  (log_event (RecordUsageCall (dc_id domain))
                     (log_event (SmtpSendMail (domain_request domain m)) w1)))
           | Inl e \<Rightarrow> sendFallback T env m (log_event (SmtpSendMail (domain_request domain m)) w1))
      | None \<Rightarrow> sendFallback T env m w1)"
  using assms by (simp add: sendEmail_def Let_def split: option.splits sum.splits)

lemma sendFallback_static:
  assumes "truthy (SMTP_HOST env)" "truthy (SMTP_PORT env)"
          "truthy (SMTP_USERNAME env)" "truthy (SMTP_PASSWORD env)"
  shows "sendFallback T env m w =
           (smtp_sendMail T (trace w) (static_request env m),
            log_event (SmtpSendMail (static_request env m)) w)"
  using assms by (simp add: sendFallback_def Let_def)

text \<open>The four sends of the rotation scenario, one at a time: the world in which a
  send starts holds the usage records \<open>r0\<close>, \<open>r1\<close>, \<open>r2\<close> that the sends before it
  created, each with \<^verbatim>\<open>count = 1\<close> in an unexpired window.\<close>

lemma scenario_send1:
  assumes free: "\<not> isPro u"
      and gd: "sort_key dc_order (smtp_domains w) = [d0, d1, d2]"
      and lim: "dc_limit d0 = 1"
      and fresh: "smtp_domain_usage w = []"
      and c: "\<not> 3600000 \<le> clock w (Suc (reads w)) - clock w (reads w)"
             "\<not> 3600000 \<le> clock w (Suc (Suc (reads w))) - clock w (reads w)"
      and sent: "smtp_sendMail T (trace w @ [GetNextAvailableDomainCall]) (domain_request d0 m) = Inr x"
  shows "sendEmail T env u m w =
    (Inr x, w\<lparr>smtp_domain_usage :=
                 [\<lparr>u_id = next_oid w, u_domain_id = dc_id d0,
                   u_window_start = clock w (reads w), u_count = 1\<rparr>],
              next_oid := Suc (next_oid w),
              reads := Suc (Suc (Suc (reads w))),
              trace := trace w @ [GetNextAvailableDomainCall, SmtpSendMail (domain_request d0 m),
                                  RecordUsageCall (dc_id d0)]\<rparr>)"
  using assms by (simp add: run_defs)

lemma scenario_send2:
  assumes free: "\<not> isPro u"
      and gd: "sort_key dc_order (smtp_domains v) = [d0, d1, d2]"
      and lim: "dc_limit d0 = 1" "dc_limit d1 = 1"
      and ids: "dc_id d0 \<noteq> dc_id d1"
      and us: "smtp_domain_usage v = [r0]" "u_domain_id r0 = dc_id d0" "u_count r0 = 1"
              "u_id r0 \<noteq> next_oid v"
      and c: "\<not> 3600000 \<le> clock v (reads v) - u_window_start r0"
             "\<not> 3600000 \<le> clock v (Suc (Suc (reads v))) - clock v (Suc (reads v))"
             "\<not> 3600000 \<le> clock v (Suc (Suc (Suc (reads v)))) - clock v (Suc (reads v))"
      and sent: "smtp_sendMail T (trace v @ [GetNextAvailableDomainCall]) (domain_request d1 m) = Inr x"
  shows "sendEmail T env u m v =
    (Inr x, v\<lparr>smtp_domain_usage :=
                 [r0, \<lparr>u_id = next_oid v, u_domain_id = dc_id d1,
                       u_window_start = clock v (Suc (reads v)), u_count = 1\<rparr>],
              next_oid := Suc (next_oid v),
              reads := Suc (Suc (Suc (Suc (reads v)))),
              trace := trace v @ [GetNextAvailableDomainCall, SmtpSendMail (domain_request d1 m),
                                  RecordUsageCall (dc_id d1)]\<rparr>)"
  using assms by (simp add: run_defs)

lemma scenario_send3:
  assumes free: "\<not> isPro u"
      and gd: "sort_key dc_order (smtp_domains v) = [d0, d1, d2]"
      and lim: "dc_limit d0 = 1" "dc_limit d1 = 1" "dc_limit d2 = 1"
      and ids: "dc_id d0 \<noteq> dc_id d1" "dc_id d0 \<noteq> dc_id d2" "dc_id d1 \<noteq> dc_id d2"
      and us: "smtp_domain_usage v = [r0, r1]"
              "u_domain_id r0 = dc_id d0" "u_count r0 = 1" "u_id r0 \<noteq> next_oid v"
              "u_domain_id r1 = dc_id d1" "u_count r1 = 1" "u_id r1 \<noteq> next_oid v"
      and c: "\<not> 3600000 \<le> clock v (reads v) - u_window_start r0"
             "\<not> 3600000 \<le> clock v (Suc (reads v)) - u_window_start r1"
             "\<not> 3600000 \<le> clock v (Suc (Suc (Suc (reads v)))) - clock v (Suc (Suc (reads v)))"
             "\<not> 3600000 \<le> clock v (Suc (Suc (Suc (Suc (reads v))))) - clock v (Suc (Suc (reads v)))"
      and sent: "smtp_sendMail T (trace v @ [GetNextAvailableDomainCall]) (domain_request d2 m) = Inr x"
  shows "sendEmail T env u m v =
    (Inr x, v\<lparr>smtp_domain_usage :=
                 [r0, r1, \<lparr>u_id = next_oid v, u_domain_id = dc_id d2,
                       u_window_start = clock v (Suc (Suc (reads v))), u_count = 1\<rparr>],
              next_oid := Suc (next_oid v),
              reads := Suc (Suc (Suc (Suc (Suc (reads v))))),
              trace := trace v @ [GetNextAvailableDomainCall, SmtpSendMail (domain_request d2 m),
                                  RecordUsageCall (dc_id d2)]\<rparr>)"
  using assms by (simp add: run_defs)

lemma scenario_send4:
  assumes free: "\<not> isPro u"
      and gd: "sort_key dc_order (smtp_domains v) = [d0, d1, d2]"
      and lim: "dc_limit d0 = 1" "dc_limit d1 = 1" "dc_limit d2 = 1"
      and ids: "dc_id d0 \<noteq> dc_id d1" "dc_id d0 \<noteq> dc_id d2" "dc_id d1 \<noteq> dc_id d2"
      and us: "smtp_domain_usage v = [r0, r1, r2]"
              "u_domain_id r0 = dc_id d0" "u_count r0 = 1"
              "u_domain_id r1 = dc_id d1" "u_count r1 = 1"
              "u_domain_id r2 = dc_id d2" "u_count r2 = 1"
      and c: "\<not> 3600000 \<le> clock v (reads v) - u_window_start r0"
             "\<not> 3600000 \<le> clock v (Suc (reads v)) - u_window_start r1"
             "\<not> 3600000 \<le> clock v (Suc (Suc (reads v))) - u_window_start r2"
      and nofb: "\<not> (truthy (SMTP_HOST env) \<and> truthy (SMTP_PORT env) \<and>
                     truthy (SMTP_USERNAME env) \<and> truthy (SMTP_PASSWORD env))"
                "\<not> (truthy (SMTPDEV_API_KEY env) \<and> truthy (SMTPDEV_ACCOUNT_ID env) \<and>
                     truthy (SMTPDEV_MAILBOX_ID env))"
  shows "sendEmail T env u m v =
    (Inl TransportExhausted,
     v\<lparr>reads := Suc (Suc (Suc (reads v))),
       trace := trace v @ [GetNextAvailableDomainCall]\<rparr>)"
  using assms by (simp add: run_defs) blast

section \<open>The claims\<close>

text \<open>
  Claim C1. \<^verbatim>\<open>getNextAvailableDomain\<close> never fails. It answers \<^verbatim>\<open>undefined\<close> (\<open>None\<close>)
  exactly when no check of the call reports availability, which includes the empty
  registry; otherwise it answers the domain at the first position of \<^verbatim>\<open>getDomains()\<close>
  whose check reports availability. \<^verbatim>\<open>getDomains()\<close> holds the stored domains in ascending
  \<^verbatim>\<open>order\<close>, those of equal \<^verbatim>\<open>order\<close> in storage order, and a check reports availability
  exactly when the count of the usage record it hands back is below the domain's limit.
\<close>

theorem getNextAvailableDomain_first_fit:
  "(case fst (getNextAvailableDomain w) of
      None \<Rightarrow> \<forall>k<length (getDomains w). \<not> check_reports (getDomains w) w k
    | Some d \<Rightarrow> \<exists>k<length (getDomains w). d = getDomains w ! k \<and>
          check_reports (getDomains w) w k \<and> (\<forall>i<k. \<not> check_reports (getDomains w) w i)) \<and>
   (smtp_domains w = [] \<longrightarrow> fst (getNextAvailableDomain w) = None) \<and>
   sorted (map dc_order (getDomains w)) \<and>
   mset (getDomains w) = mset (smtp_domains w) \<and>
   (\<forall>r. filter (\<lambda>d. dc_order d = r) (getDomains w) = filter (\<lambda>d. dc_order d = r) (smtp_domains w)) \<and>
   (\<forall>k. check_reports (getDomains w) w k =
        (u_count (usage (fst (hasQuota (getDomains w ! k) (world_before_check (getDomains w) w k))))
           < dc_limit (getDomains w ! k)))"
proof -
  have a: "case fst (getNextAvailableDomain w) of
      None \<Rightarrow> \<forall>k<length (getDomains w). \<not> check_reports (getDomains w) w k
    | Some d \<Rightarrow> \<exists>k<length (getDomains w). d = getDomains w ! k \<and>
          check_reports (getDomains w) w k \<and> (\<forall>i<k. \<not> check_reports (getDomains w) w i)"
    using firstAvailable_None[of "getDomains w" w] firstAvailable_Some[of "getDomains w" w]
    by (simp add: getNextAvailableDomain_def split: option.split)
  have b: "smtp_domains w = [] \<longrightarrow> fst (getNextAvailableDomain w) = None"
    by (simp add: getNextAvailableDomain_def getDomains_def)
  have c: "sorted (map dc_order (getDomains w))" "mset (getDomains w) = mset (smtp_domains w)"
    by (simp_all add: getDomains_def)
  have d: "\<forall>r. filter (\<lambda>d. dc_order d = r) (getDomains w) = filter (\<lambda>d. dc_order d = r) (smtp_domains w)"
    by (simp add: getDomains_def sort_key_stable)
  have e: "\<forall>k. check_reports (getDomains w) w k =
        (u_count (usage (fst (hasQuota (getDomains w ! k) (world_before_check (getDomains w) w k))))
           < dc_limit (getDomains w ! k))"
    by (simp add: check_reports_def hasQuota_available_iff)
  from a b c d e show ?thesis by blast
qed

theorem getNextAvailableDomain_first_fit_witness:
  "fst (getNextAvailableDomain
          (example_world [example_domain 1, example_domain 0] [example_usage 0 0 1] (\<lambda>i. 1000)))
     = Some (example_domain 1) \<and>
   getDomains (example_world [example_domain 1, example_domain 0] [example_usage 0 0 1] (\<lambda>i. 1000))
     = [example_domain 0, example_domain 1] \<and>
   \<not> check_reports [example_domain 0, example_domain 1]
        (example_world [example_domain 1, example_domain 0] [example_usage 0 0 1] (\<lambda>i. 1000)) 0 \<and>
   check_reports [example_domain 0, example_domain 1]
        (example_world [example_domain 1, example_domain 0] [example_usage 0 0 1] (\<lambda>i. 1000)) 1"
proof -
  let ?w = "example_world [example_domain 1, example_domain 0] [example_usage 0 0 1] (\<lambda>i. 1000)"
  have g: "getDomains ?w = [example_domain 0, example_domain 1]"
    by (simp add: getDomains_def example_world_def example_domain_def)
  have c0: "\<not> check_reports [example_domain 0, example_domain 1] ?w 0"
    by (simp add: check_reports_def world_before_check_def hasQuota_def getUsageDoc_def
        findOneUsage_def newDate_def example_world_def example_domain_def example_usage_def)
  have c1: "check_reports [example_domain 0, example_domain 1] ?w 1"
    by (simp add: check_reports_def world_before_check_def hasQuota_def getUsageDoc_def
        findOneUsage_def newDate_def example_world_def example_domain_def example_usage_def
        Let_def)
  have "case fst (getNextAvailableDomain ?w) of
      None \<Rightarrow> \<forall>k<length (getDomains ?w). \<not> check_reports (getDomains ?w) ?w k
    | Some d \<Rightarrow> \<exists>k<length (getDomains ?w). d = getDomains ?w ! k \<and>
          check_reports (getDomains ?w) ?w k \<and> (\<forall>i<k. \<not> check_reports (getDomains ?w) ?w i)"
    using getNextAvailableDomain_first_fit [of ?w] by blast
  then have "fst (getNextAvailableDomain ?w) = Some (example_domain 1)"
    using c0 c1 unfolding g by (auto simp: less_Suc_eq split: option.splits)
  with g c0 c1 show ?thesis by simp
qed

text \<open>
  Claim C2, as amended. For a free-tier user with all four static SMTP values present, a
  failure of the send through the static transport is what \<^verbatim>\<open>sendEmail\<close> answers: the
  error reaches the caller and the smtp.dev relay is not tried. The static transport is
  reached in two ways, when the allocator finds no domain and when the send through the
  allocated domain has failed; in both the trace of the call ends with the static send.
\<close>

theorem static_fallback_failure_propagates:
  assumes free: "\<not> isPro u"
      and cfg: "truthy (SMTP_HOST env)" "truthy (SMTP_PORT env)"
               "truthy (SMTP_USERNAME env)" "truthy (SMTP_PASSWORD env)"
  shows "(fst (getNextAvailableDomain (log_event GetNextAvailableDomainCall w)) = None \<and>
          smtp_sendMail T (trace w @ [GetNextAvailableDomainCall]) (static_request env m) = Inl e
          \<longrightarrow>
            fst (sendEmail T env u m w) = Inl e \<and>
            trace (snd (sendEmail T env u m w)) =
              trace w @ [GetNextAvailableDomainCall, SmtpSendMail (static_request env m)]) \<and>
         (fst (getNextAvailableDomain (log_event GetNextAvailableDomainCall w)) = Some d \<and>
          smtp_sendMail T (trace w @ [GetNextAvailableDomainCall]) (domain_request d m) = Inl e0 \<and>
          smtp_sendMail T (trace w @ [GetNextAvailableDomainCall, SmtpSendMail (domain_request d m)])
            (static_request env m) = Inl e
          \<longrightarrow>
            fst (sendEmail T env u m w) = Inl e \<and>
            trace (snd (sendEmail T env u m w)) =
              trace w @ [GetNextAvailableDomainCall, SmtpSendMail (domain_request d m),
                         SmtpSendMail (static_request env m)])"
proof (cases "getNextAvailableDomain (log_event GetNextAvailableDomainCall w)")
  case (Pair found w1)
  note tr = trace_after_allocation[OF Pair]
  show ?thesis
    using sendEmail_free[OF free Pair, of T env m] Pair tr cfg
    by (auto simp: sendFallback_static log_event_def)
qed

theorem static_fallback_failure_propagates_witness:
  "\<not> isPro example_user \<and>
   fst (sendEmail (example_transports (Inl (TransportFailure ''connection refused'')))
          env_static example_user example_message
          (example_world [example_domain 0] [] (\<lambda>i. 1000)))
     = Inl (TransportFailure ''connection refused'') \<and>
   trace (snd (sendEmail (example_transports (Inl (TransportFailure ''connection refused'')))
          env_static example_user example_message
          (example_world [example_domain 0] [] (\<lambda>i. 1000))))
     = [GetNextAvailableDomainCall, SmtpSendMail (domain_request (example_domain 0) example_message),
        SmtpSendMail (static_request env_static example_message)]"
proof -
  let ?T = "example_transports (Inl (TransportFailure ''connection refused''))"
  let ?w = "example_world [example_domain 0] [] (\<lambda>i. 1000)"
  have free: "\<not> isPro example_user" by (simp add: isPro_def example_user_def)
  have cfg: "truthy (SMTP_HOST env_static)" "truthy (SMTP_PORT env_static)"
            "truthy (SMTP_USERNAME env_static)" "truthy (SMTP_PASSWORD env_static)"
    by (simp_all add: truthy_def env_static_def env_none_def)
  have alloc: "fst (getNextAvailableDomain (log_event GetNextAvailableDomainCall ?w))
                 = Some (example_domain 0)"
    by (simp add: getNextAvailableDomain_def getDomains_def hasQuota_def getUsageDoc_def
        findOneUsage_def newDate_def log_event_def Let_def example_world_def example_domain_def)
  have tr: "trace ?w = []" by (simp add: example_world_def)
  from static_fallback_failure_propagates [OF free cfg,
         of ?w ?T example_message "TransportFailure ''connection refused''" "example_domain 0"
            "TransportFailure ''connection refused''"] alloc free tr
  show ?thesis by (simp add: example_transports_def)
qed

text \<open>
  Claim C2 as stated (a failed static send falls through to the smtp.dev relay) fails: with
  an empty registry, the static transport and the smtp.dev relay both configured, and a
  static transport that refuses the connection, \<^verbatim>\<open>sendEmail\<close> answers that refusal, and
  the trace holds the allocator call and the static send only.
\<close>

theorem static_fallback_fallthrough_counterexample:
  "\<not> isPro example_user \<and>
   truthy (SMTP_HOST env_static_and_smtpdev) \<and> truthy (SMTP_PORT env_static_and_smtpdev) \<and>
   truthy (SMTP_USERNAME env_static_and_smtpdev) \<and> truthy (SMTP_PASSWORD env_static_and_smtpdev) \<and>
   truthy (SMTPDEV_API_KEY env_static_and_smtpdev) \<and>
   truthy (SMTPDEV_ACCOUNT_ID env_static_and_smtpdev) \<and>
   truthy (SMTPDEV_MAILBOX_ID env_static_and_smtpdev) \<and>
   sendEmail (example_transports (Inl (TransportFailure ''connection refused'')))
       env_static_and_smtpdev example_user example_message (example_world [] [] (\<lambda>i. 1000))
     = (Inl (TransportFailure ''connection refused''),
        (example_world [] [] (\<lambda>i. 1000))
          \<lparr>trace := [GetNextAvailableDomainCall,
                     SmtpSendMail
                       \<lparr>sm_host = ''mail.example.org'', sm_port = Some 465, sm_secure = True,
                        sm_user = ''svc'', sm_pass = ''pw'', sm_from = ''no-reply@cocoinbox.app'',
                        sm_to = ''bob@example.org'', sm_subject = ''hello'',
                        sm_text = Some ''hi'', sm_html = None\<rparr>]\<rparr>)"
  by (simp add: sendEmail_def sendFallback_def getNextAvailableDomain_def getDomains_def
      isPro_def truthy_def static_request_def str_of_def or_default_def or_undefined_def
      parseInt10_def js_whitespace_def is_digit_def log_event_def Let_def example_defs)

text \<open>
  Claim C3, as amended. Three domains of \<^verbatim>\<open>order\<close> 0, 1, 2 and limit 1 each, stored in any
  order, with pairwise distinct identifiers; no usage record yet; every SMTP send succeeds;
  and the fifteen clock readings of the four calls lie within one window: no reading is
  3600000 ms or more after an earlier one. Then three free-tier sends succeed through
  domain0, domain1 and domain2 in turn, each followed by one \<^verbatim>\<open>recordUsage\<close> on that
  domain, and a fourth send, with neither the static SMTP fallback nor the smtp.dev relay
  configured, fails with \<open>TransportExhausted\<close> after consulting the allocator. At the end
  each domain has one usage record with \<^verbatim>\<open>count = 1\<close>.
\<close>

theorem three_domains_rotation:
  assumes free: "\<not> isPro u"
      and reg: "mset (smtp_domains w) = {#d0, d1, d2#}"
      and ord: "dc_order d0 = 0" "dc_order d1 = 1" "dc_order d2 = 2"
      and lim: "dc_limit d0 = 1" "dc_limit d1 = 1" "dc_limit d2 = 1"
      and ids: "dc_id d0 \<noteq> dc_id d1" "dc_id d0 \<noteq> dc_id d2" "dc_id d1 \<noteq> dc_id d2"
      and fresh: "smtp_domain_usage w = []"
      and succ: "\<forall>h r. \<exists>x. smtp_sendMail T h r = Inr x"
      and clk: "\<forall>i j. i \<le> j \<and> j < 15 \<longrightarrow>
                  clock w (reads w + j) - clock w (reads w + i) < 3600000"
      and nofb: "\<not> (truthy (SMTP_HOST env4) \<and> truthy (SMTP_PORT env4) \<and>
                     truthy (SMTP_USERNAME env4) \<and> truthy (SMTP_PASSWORD env4))"
                "\<not> (truthy (SMTPDEV_API_KEY env4) \<and> truthy (SMTPDEV_ACCOUNT_ID env4) \<and>
                     truthy (SMTPDEV_MAILBOX_ID env4))"
  shows "\<exists>x1 x2 x3 w1 w2 w3 w4.
           sendEmail T env u m1 w = (Inr x1, w1) \<and>
           sendEmail T env u m2 w1 = (Inr x2, w2) \<and>
           sendEmail T env u m3 w2 = (Inr x3, w3) \<and>
           sendEmail T env4 u m4 w3 = (Inl TransportExhausted, w4) \<and>
           trace w4 = trace w @
             [GetNextAvailableDomainCall, SmtpSendMail (domain_request d0 m1),
                RecordUsageCall (dc_id d0),
              GetNextAvailableDomainCall, SmtpSendMail (domain_request d1 m2),
                RecordUsageCall (dc_id d1),
              GetNextAvailableDomainCall, SmtpSendMail (domain_request d2 m3),
                RecordUsageCall (dc_id d2),
              GetNextAvailableDomainCall] \<and>
           map (\<lambda>r. (u_domain_id r, u_count r)) (smtp_domain_usage w4) =
             [(dc_id d0, 1), (dc_id d1, 1), (dc_id d2, 1)]"
proof -
  have gd: "sort_key dc_order (smtp_domains w) = [d0, d1, d2]"
    using reg ord by (rule sorted_three)
  have t: "\<not> 3600000 \<le> clock w (reads w + j) - clock w (reads w + i)" if "i \<le> j" "j < 15" for i j
    using clk that by (simp add: not_le)
  note tt = t[of 0 1] t[of 0 2] t[of 0 3] t[of 4 5] t[of 4 6] t[of 0 7] t[of 4 8]
            t[of 9 10] t[of 9 11] t[of 0 12] t[of 4 13] t[of 9 14]
  note ts = tt[simplified]
  from succ obtain x1 where
    s1: "smtp_sendMail T (trace w @ [GetNextAvailableDomainCall]) (domain_request d0 m1) = Inr x1"
    by blast
  define r0 where "r0 = \<lparr>u_id = next_oid w, u_domain_id = dc_id d0,
                          u_window_start = clock w (reads w), u_count = 1\<rparr>"
  define w1 where "w1 = w\<lparr>smtp_domain_usage := [r0], next_oid := Suc (next_oid w),
              reads := Suc (Suc (Suc (reads w))),
              trace := trace w @ [GetNextAvailableDomainCall, SmtpSendMail (domain_request d0 m1),
                                  RecordUsageCall (dc_id d0)]\<rparr>"
  have e1: "sendEmail T env u m1 w = (Inr x1, w1)"
    unfolding w1_def r0_def
    by (rule scenario_send1[OF free gd lim(1) fresh _ _ s1])
       (use ts in \<open>simp_all add: eval_nat_numeral\<close>)
  from succ obtain x2 where
    s2: "smtp_sendMail T (trace w1 @ [GetNextAvailableDomainCall]) (domain_request d1 m2) = Inr x2"
    by blast
  define r1 where "r1 = \<lparr>u_id = next_oid w1, u_domain_id = dc_id d1,
                          u_window_start = clock w1 (Suc (reads w1)), u_count = 1\<rparr>"
  define w2 where "w2 = w1\<lparr>smtp_domain_usage := [r0, r1], next_oid := Suc (next_oid w1),
              reads := Suc (Suc (Suc (Suc (reads w1)))),
              trace := trace w1 @ [GetNextAvailableDomainCall, SmtpSendMail (domain_request d1 m2),
                                  RecordUsageCall (dc_id d1)]\<rparr>"
  have e2: "sendEmail T env u m2 w1 = (Inr x2, w2)"
    unfolding w2_def r1_def
    by (rule scenario_send2[where v = w1 and ?r0.0 = r0,
          OF free _ lim(1) lim(2) ids(1) _ _ _ _ _ _ _ s2])
       (use gd ts in \<open>simp_all add: w1_def r0_def eval_nat_numeral\<close>)
  from succ obtain x3 where
    s3: "smtp_sendMail T (trace w2 @ [GetNextAvailableDomainCall]) (domain_request d2 m3) = Inr x3"
    by blast
  define r2 where "r2 = \<lparr>u_id = next_oid w2, u_domain_id = dc_id d2,
                          u_window_start = clock w2 (Suc (Suc (reads w2))), u_count = 1\<rparr>"
  define w3 where "w3 = w2\<lparr>smtp_domain_usage := [r0, r1, r2], next_oid := Suc (next_oid w2),
              reads := Suc (Suc (Suc (Suc (Suc (reads w2))))),
              trace := trace w2 @ [GetNextAvailableDomainCall, SmtpSendMail (domain_request d2 m3),
                                  RecordUsageCall (dc_id d2)]\<rparr>"
  have e3: "sendEmail T env u m3 w2 = (Inr x3, w3)"
    unfolding w3_def r2_def
    by (rule scenario_send3[where v = w2 and ?r0.0 = r0 and ?r1.0 = r1,
          OF free _ lim ids _ _ _ _ _ _ _ _ _ _ _ s3])
       (use gd ts in \<open>simp_all add: w2_def w1_def r0_def r1_def eval_nat_numeral\<close>)
  define w4 where "w4 = w3\<lparr>reads := Suc (Suc (Suc (reads w3))),
                            trace := trace w3 @ [GetNextAvailableDomainCall]\<rparr>"
  have e4: "sendEmail T env4 u m4 w3 = (Inl TransportExhausted, w4)"
    unfolding w4_def
    by (rule scenario_send4[where v = w3 and ?r0.0 = r0 and ?r1.0 = r1 and ?r2.0 = r2,
          OF free _ lim ids _ _ _ _ _ _ _ _ _ _ nofb])
       (use gd ts in \<open>simp_all add: w3_def w2_def w1_def r0_def r1_def r2_def eval_nat_numeral\<close>)
  have tr: "trace w4 = trace w @
             [GetNextAvailableDomainCall, SmtpSendMail (domain_request d0 m1),
                RecordUsageCall (dc_id d0),
              GetNextAvailableDomainCall, SmtpSendMail (domain_request d1 m2),
                RecordUsageCall (dc_id d1),
              GetNextAvailableDomainCall, SmtpSendMail (domain_request d2 m3),
                RecordUsageCall (dc_id d2),
              GetNextAvailableDomainCall]"
    by (simp add: w4_def w3_def w2_def w1_def)
  have us: "map (\<lambda>r. (u_domain_id r, u_count r)) (smtp_domain_usage w4) =
             [(dc_id d0, 1), (dc_id d1, 1), (dc_id d2, 1)]"
    by (simp add: w4_def w3_def r0_def r1_def r2_def)
  show ?thesis
    apply (rule exI[of _ x1], rule exI[of _ x2], rule exI[of _ x3])
    apply (rule exI[of _ w1], rule exI[of _ w2], rule exI[of _ w3], rule exI[of _ w4])
    apply (intro conjI)
    apply (rule e1, rule e2, rule e3, rule e4, rule tr, rule us)
    done
qed

theorem three_domains_rotation_witness:
  "\<exists>x1 x2 x3 w1 w2 w3 w4.
     sendEmail (example_transports (Inr (Reply ''sent''))) env_static example_user example_message
        (example_world [example_domain 2, example_domain 0, example_domain 1] []
           (\<lambda>i. 1000 * int i)) = (Inr x1, w1) \<and>
     sendEmail (example_transports (Inr (Reply ''sent''))) env_static example_user example_message w1
        = (Inr x2, w2) \<and>
     sendEmail (example_transports (Inr (Reply ''sent''))) env_static example_user example_message w2
        = (Inr x3, w3) \<and>
     sendEmail (example_transports (Inr (Reply ''sent''))) env_none example_user example_message w3
        = (Inl TransportExhausted, w4) \<and>
     trace w4 =
       [GetNextAvailableDomainCall, SmtpSendMail (domain_request (example_domain 0) example_message),
          RecordUsageCall 0,
        GetNextAvailableDomainCall, SmtpSendMail (domain_request (example_domain 1) example_message),
          RecordUsageCall 1,
        GetNextAvailableDomainCall, SmtpSendMail (domain_request (example_domain 2) example_message),
          RecordUsageCall 2,
        GetNextAvailableDomainCall] \<and>
     map (\<lambda>r. (u_domain_id r, u_count r)) (smtp_domain_usage w4) = [(0, 1), (1, 1), (2, 1)]"
proof -
  let ?w = "example_world [example_domain 2, example_domain 0, example_domain 1] []
              (\<lambda>i. 1000 * int i)"
  let ?T = "example_transports (Inr (Reply ''sent''))"
  have free: "\<not> isPro example_user" by (simp add: isPro_def example_user_def)
  have reg: "mset (smtp_domains ?w) = {#example_domain 0, example_domain 1, example_domain 2#}"
    by (simp add: example_world_def)
  have ord: "dc_order (example_domain 0) = 0" "dc_order (example_domain 1) = 1"
            "dc_order (example_domain 2) = 2"
    by (simp_all add: example_domain_def)
  have lim: "dc_limit (example_domain 0) = 1" "dc_limit (example_domain 1) = 1"
            "dc_limit (example_domain 2) = 1"
    by (simp_all add: example_domain_def)
  have ids: "dc_id (example_domain 0) \<noteq> dc_id (example_domain 1)"
            "dc_id (example_domain 0) \<noteq> dc_id (example_domain 2)"
            "dc_id (example_domain 1) \<noteq> dc_id (example_domain 2)"
    by (simp_all add: example_domain_def)
  have fresh: "smtp_domain_usage ?w = []" by (simp add: example_world_def)
  have succ: "\<forall>h r. \<exists>x. smtp_sendMail ?T h r = Inr x"
    by (simp add: example_transports_def)
  have clk: "\<forall>i j. i \<le> j \<and> j < 15 \<longrightarrow> clock ?w (reads ?w + j) - clock ?w (reads ?w + i) < 3600000"
    by (auto simp: example_world_def)
  have nofb: "\<not> (truthy (SMTP_HOST env_none) \<and> truthy (SMTP_PORT env_none) \<and>
                   truthy (SMTP_USERNAME env_none) \<and> truthy (SMTP_PASSWORD env_none))"
             "\<not> (truthy (SMTPDEV_API_KEY env_none) \<and> truthy (SMTPDEV_ACCOUNT_ID env_none) \<and>
                   truthy (SMTPDEV_MAILBOX_ID env_none))"
    by (simp_all add: truthy_def env_none_def)
  have tr: "trace ?w = []" by (simp add: example_world_def)
  have i: "dc_id (example_domain 0) = 0" "dc_id (example_domain 1) = 1"
          "dc_id (example_domain 2) = 2"
    by (simp_all add: example_domain_def)
  from three_domains_rotation [OF free reg ord lim ids fresh succ clk nofb,
         of env_static example_message example_message example_message example_message]
  show ?thesis unfolding tr i by simp
qed

text \<open>
  Claim C3 as stated says nothing of time, and fails when the sends are an hour apart: the
  three domains of the scenario, no usage record, every send succeeding, the first send at
  time 0 and the second at 3600000 ms. The check of the second send finds the window of
  domain0 expired and resets it, so the second send goes through domain0 again, not
  through domain1.
\<close>

theorem three_domains_rotation_counterexample:
  "\<not> isPro example_user \<and>
   trace (snd (sendEmail (example_transports (Inr (Reply ''sent''))) env_none example_user
                 example_message
            (snd (sendEmail (example_transports (Inr (Reply ''sent''))) env_none example_user
                    example_message
                    (example_world [example_domain 0, example_domain 1, example_domain 2] []
                       (\<lambda>i. if i < 3 then 0 else 3600000)))))) =
     [GetNextAvailableDomainCall, SmtpSendMail (domain_request (example_domain 0) example_message),
        RecordUsageCall 0,
      GetNextAvailableDomainCall, SmtpSendMail (domain_request (example_domain 0) example_message),
        RecordUsageCall 0]"
  by (simp add: run_defs isPro_def example_defs)

text \<open>
  Claim C4. Let \<open>u\<close> be the usage record that \<^verbatim>\<open>recordUsage\<close> loads and let the time of
  the call be the reading of the clock it takes next. Within the window (less than
  3600000 ms after \<open>window_start u\<close>) the persisted record becomes \<open>u\<close> with its count
  increased by one; at or after 3600000 ms it becomes a new window that starts at the
  time of the call with \<^verbatim>\<open>count = 1\<close>, whatever the old count was. In particular, from
  \<^verbatim>\<open>count = 0\<close> a first call in the window persists 1, and a second call in the same
  window persists 2.
\<close>

theorem recordUsage_counts:
  assumes ok: "usage_ids_ok w" and g: "getUsageDoc domId w = (u, w1)"
  shows "(clock w1 (reads w1) - u_window_start u < 3600000 \<longrightarrow>
            findOneUsage domId (smtp_domain_usage (recordUsage domId w))
              = Some (u\<lparr>u_count := u_count u + 1\<rparr>)) \<and>
         (3600000 \<le> clock w1 (reads w1) - u_window_start u \<longrightarrow>
            findOneUsage domId (smtp_domain_usage (recordUsage domId w))
              = Some (u\<lparr>u_window_start := clock w1 (reads w1), u_count := 1\<rparr>)) \<and>
         (u_count u = 0 \<and> clock w1 (reads w1) - u_window_start u < 3600000 \<and>
          clock w1 (Suc (reads w1)) - u_window_start u < 3600000 \<longrightarrow>
            findOneUsage domId (smtp_domain_usage (recordUsage domId w))
              = Some (u\<lparr>u_count := 1\<rparr>) \<and>
            findOneUsage domId (smtp_domain_usage (recordUsage domId (recordUsage domId w)))
              = Some (u\<lparr>u_count := 2\<rparr>))"
proof -
  let ?w' = "incrementUsage domId w"
  note s1 = incrementUsage_step[OF ok g]
  from getUsageDoc_found[OF ok g] have c: "clock w1 = clock w" by simp
  have two: "findOneUsage domId (smtp_domain_usage (incrementUsage domId ?w'))
              = Some (u\<lparr>u_count := 2\<rparr>)"
    if a: "u_count u = 0" "clock w1 (reads w1) - u_window_start u < 3600000"
          "clock w1 (Suc (reads w1)) - u_window_start u < 3600000"
  proof -
    from s1 a have f1: "findOneUsage domId (smtp_domain_usage ?w') = Some (u\<lparr>u_count := 1\<rparr>)"
      by simp
    from s1 have ok': "usage_ids_ok ?w'" by simp
    have g': "getUsageDoc domId ?w' = (u\<lparr>u_count := 1\<rparr>, ?w')"
      using f1 by (rule getUsageDoc_existing)
    from incrementUsage_step[OF ok' g'] s1 a c show ?thesis by simp
  qed
  from s1 two show ?thesis by (simp add: recordUsage_def)
qed

theorem recordUsage_counts_witness:
  "findOneUsage 0 (smtp_domain_usage (recordUsage 0
        (example_world [example_domain 0] [example_usage 0 0 0] (\<lambda>i. 1000))))
     = Some (example_usage 0 0 1) \<and>
   findOneUsage 0 (smtp_domain_usage (recordUsage 0 (recordUsage 0
        (example_world [example_domain 0] [example_usage 0 0 0] (\<lambda>i. 1000)))))
     = Some (example_usage 0 0 2) \<and>
   findOneUsage 0 (smtp_domain_usage (recordUsage 0
        (example_world [example_domain 0] [example_usage 0 0 2] (\<lambda>i. 3600000))))
     = Some (example_usage 0 3600000 1)"
proof -
  let ?w = "example_world [example_domain 0] [example_usage 0 0 0] (\<lambda>i. 1000)"
  let ?v = "example_world [example_domain 0] [example_usage 0 0 2] (\<lambda>i. 3600000)"
  have ok: "usage_ids_ok ?w" "usage_ids_ok ?v"
    by (simp_all add: usage_ids_ok_def example_world_def example_usage_def)
  have g: "getUsageDoc 0 ?w = (example_usage 0 0 0, ?w)"
          "getUsageDoc 0 ?v = (example_usage 0 0 2, ?v)"
    by (simp_all add: getUsageDoc_def findOneUsage_def example_world_def example_usage_def)
  from recordUsage_counts [OF ok(1) g(1)] recordUsage_counts [OF ok(2) g(2)] show ?thesis
    by (simp add: example_world_def example_usage_def)
qed

text \<open>
  Claim C5. Let \<open>u\<close> be the usage record that \<^verbatim>\<open>hasQuota\<close> loads for the domain (the
  stored one, or the one \<^verbatim>\<open>getUsageDoc\<close> has just inserted) and let the check time be
  the reading of the clock that \<^verbatim>\<open>hasQuota\<close> takes next. If the check time is at least
  3600000 ms (3600 seconds) after \<open>window_start u\<close>, then after the check the record
  persisted for the domain is \<open>u\<close> with \<^verbatim>\<open>count = 0\<close> and \<^verbatim>\<open>window_start\<close> the check
  time, the record handed back is that same record, and the verdict is computed from the
  reset count: it is true exactly when \<^verbatim>\<open>limit > 0\<close>.
\<close>

theorem hasQuota_resets_expired_window:
  assumes ok: "usage_ids_ok w"
      and g: "getUsageDoc (dc_id d) w = (u, w1)"
      and ex: "3600000 \<le> clock w1 (reads w1) - u_window_start u"
  shows "findOneUsage (dc_id d) (smtp_domain_usage (snd (hasQuota d w)))
           = Some (u\<lparr>u_window_start := clock w1 (reads w1), u_count := 0\<rparr>) \<and>
         usage (fst (hasQuota d w)) = u\<lparr>u_window_start := clock w1 (reads w1), u_count := 0\<rparr> \<and>
         available (fst (hasQuota d w)) = (0 < dc_limit d)"
proof -
  from getUsageDoc_found[OF ok g] have f: "findOneUsage (dc_id d) (smtp_domain_usage w1) = Some u"
    and dist: "distinct (map u_id (smtp_domain_usage w1))"
    by (simp_all add: usage_ids_ok_def)
  show ?thesis using g ex findOne_updateOne[OF f dist]
    by (simp add: hasQuota_def newDate_def)
qed

theorem hasQuota_resets_expired_window_witness:
  "usage_ids_ok (example_world [example_domain 0] [example_usage 0 0 1] (\<lambda>i. 3600000)) \<and>
   findOneUsage 0 (smtp_domain_usage (snd (hasQuota (example_domain 0)
        (example_world [example_domain 0] [example_usage 0 0 1] (\<lambda>i. 3600000)))))
     = Some (example_usage 0 3600000 0) \<and>
   available (fst (hasQuota (example_domain 0)
        (example_world [example_domain 0] [example_usage 0 0 1] (\<lambda>i. 3600000))))"
proof -
  let ?w = "example_world [example_domain 0] [example_usage 0 0 1] (\<lambda>i. 3600000)"
  have ok: "usage_ids_ok ?w"
    by (simp add: usage_ids_ok_def example_world_def example_usage_def)
  have g: "getUsageDoc (dc_id (example_domain 0)) ?w = (example_usage 0 0 1, ?w)"
    by (simp add: getUsageDoc_def findOneUsage_def example_world_def example_usage_def
        example_domain_def)
  have ex: "3600000 \<le> clock ?w (reads ?w) - u_window_start (example_usage 0 0 1)"
    by (simp add: example_world_def example_usage_def)
  from hasQuota_resets_expired_window [OF ok g ex] ok show ?thesis
    by (simp add: example_world_def example_usage_def example_domain_def)
qed

text \<open>
  Claim C6. For a premium user, when \<^verbatim>\<open>MAILCHIMP_API_KEY\<close> or \<^verbatim>\<open>MAILCHIMP_SERVER_PREFIX\<close>
  is absent (undefined or empty), \<^verbatim>\<open>sendEmail\<close> answers \<open>ConfigurationError\<close> and leaves
  the world as it was: nothing is appended to the trace (the allocator is not consulted,
  no transport is called, \<^verbatim>\<open>recordUsage\<close> is not called) and the usage collection is
  unchanged.
\<close>

theorem premium_missing_credentials:
  assumes "isPro u"
      and "\<not> truthy (MAILCHIMP_API_KEY env) \<or> \<not> truthy (MAILCHIMP_SERVER_PREFIX env)"
  shows "sendEmail T env u m w = (Inl ConfigurationError, w) \<and>
         trace (snd (sendEmail T env u m w)) = trace w \<and>
         smtp_domain_usage (snd (sendEmail T env u m w)) = smtp_domain_usage w"
  using assms by (auto simp: sendEmail_def)

theorem premium_missing_credentials_witness:
  "isPro premium_user \<and> \<not> truthy (MAILCHIMP_API_KEY env_static_and_smtpdev) \<and>
   sendEmail (example_transports (Inr (Reply ''sent''))) env_static_and_smtpdev premium_user
       example_message (example_world [example_domain 0] [] (\<lambda>i. 1000))
     = (Inl ConfigurationError, example_world [example_domain 0] [] (\<lambda>i. 1000))"
proof -
  have a: "isPro premium_user" by (simp add: isPro_def premium_user_def)
  have b: "\<not> truthy (MAILCHIMP_API_KEY env_static_and_smtpdev)"
    by (simp add: truthy_def example_defs)
  from premium_missing_credentials [OF a disjI1 [OF b],
         of "example_transports (Inr (Reply ''sent''))" example_message
            "example_world [example_domain 0] [] (\<lambda>i. 1000)"] a b
  show ?thesis by simp
qed

text \<open>
  Claim C7. For a free-tier user, when every configured domain (position \<open>k\<close> of
  \<^verbatim>\<open>getDomains()\<close>, checked at the \<open>k\<close>-th clock reading of the call) has a usage
  record with \<^verbatim>\<open>count >= limit\<close> in an unexpired window, all four static SMTP values are
  present and the static send succeeds, \<^verbatim>\<open>sendEmail\<close> answers the static transport's
  result. The world after the call differs from the world before it in the clock readings
  taken and in the trace, which gains the allocator call and the static send: the usage
  collection is unchanged and \<^verbatim>\<open>recordUsage\<close> is not called.
\<close>

theorem exhausted_pool_uses_static_fallback:
  assumes free: "\<not> isPro u"
      and ex: "\<forall>k<length (getDomains w). \<exists>r.
                 findOneUsage (dc_id (getDomains w ! k)) (smtp_domain_usage w) = Some r \<and>
                 dc_limit (getDomains w ! k) \<le> u_count r \<and>
                 clock w (reads w + k) - u_window_start r < 3600000"
      and cfg: "truthy (SMTP_HOST env)" "truthy (SMTP_PORT env)"
               "truthy (SMTP_USERNAME env)" "truthy (SMTP_PASSWORD env)"
      and sent: "smtp_sendMail T (trace w @ [GetNextAvailableDomainCall]) (static_request env m)
                   = Inr info"
  shows "sendEmail T env u m w =
           (Inr info,
            w\<lparr>reads := reads w + length (smtp_domains w),
              trace := trace w @ [GetNextAvailableDomainCall,
                                  SmtpSendMail (static_request env m)]\<rparr>) \<and>
         smtp_domain_usage (snd (sendEmail T env u m w)) = smtp_domain_usage w \<and>
         (\<forall>i. RecordUsageCall i \<notin> set (drop (length (trace w)) (trace (snd (sendEmail T env u m w)))))"
proof -
  let ?w0 = "log_event GetNextAvailableDomainCall w"
  have gd: "getDomains ?w0 = getDomains w" by (simp add: getDomains_def log_event_def)
  have "\<forall>k<length (getDomains w). \<exists>r.
          findOneUsage (dc_id (getDomains w ! k)) (smtp_domain_usage ?w0) = Some r \<and>
          dc_limit (getDomains w ! k) \<le> u_count r \<and>
          clock ?w0 (reads ?w0 + k) - u_window_start r < 3600000"
    using ex by (simp add: log_event_def)
  from firstAvailable_exhausted[OF this]
  have alloc: "getNextAvailableDomain ?w0 = (None, ?w0\<lparr>reads := reads ?w0 + length (getDomains w)\<rparr>)"
    by (simp add: getNextAvailableDomain_def gd)
  have len: "length (getDomains w) = length (smtp_domains w)" by (simp add: getDomains_def)
  have eq: "sendEmail T env u m w =
           (Inr info,
            w\<lparr>reads := reads w + length (smtp_domains w),
              trace := trace w @ [GetNextAvailableDomainCall,
                                  SmtpSendMail (static_request env m)]\<rparr>)"
    using sendEmail_free[OF free alloc, of T env m] sent cfg
    by (simp add: sendFallback_static len log_event_def)
  show ?thesis unfolding eq by simp
qed

theorem exhausted_pool_uses_static_fallback_witness:
  "\<not> isPro example_user \<and>
   sendEmail (example_transports (Inr (Reply ''sent''))) env_static example_user example_message
       (example_world [example_domain 1, example_domain 0]
          [example_usage 0 0 1, example_usage 1 0 1] (\<lambda>i. 1000))
     = (Inr (Reply ''sent''),
        (example_world [example_domain 1, example_domain 0]
           [example_usage 0 0 1, example_usage 1 0 1] (\<lambda>i. 1000))
          \<lparr>reads := 2,
            trace := [GetNextAvailableDomainCall,
                      SmtpSendMail (static_request env_static example_message)]\<rparr>)"
proof -
  let ?w = "example_world [example_domain 1, example_domain 0]
              [example_usage 0 0 1, example_usage 1 0 1] (\<lambda>i. 1000)"
  let ?T = "example_transports (Inr (Reply ''sent''))"
  have free: "\<not> isPro example_user" by (simp add: isPro_def example_user_def)
  have gd: "getDomains ?w = [example_domain 0, example_domain 1]"
    by (simp add: getDomains_def example_world_def example_domain_def)
  have ex: "\<forall>k<length (getDomains ?w). \<exists>r.
              findOneUsage (dc_id (getDomains ?w ! k)) (smtp_domain_usage ?w) = Some r \<and>
              dc_limit (getDomains ?w ! k) \<le> u_count r \<and>
              clock ?w (reads ?w + k) - u_window_start r < 3600000"
    unfolding gd
    by (simp add: less_Suc_eq findOneUsage_def example_world_def example_domain_def
        example_usage_def)
  have cfg: "truthy (SMTP_HOST env_static)" "truthy (SMTP_PORT env_static)"
            "truthy (SMTP_USERNAME env_static)" "truthy (SMTP_PASSWORD env_static)"
    by (simp_all add: truthy_def env_static_def env_none_def)
  have sent: "smtp_sendMail ?T (trace ?w @ [GetNextAvailableDomainCall])
                (static_request env_static example_message) = Inr (Reply ''sent'')"
    by (simp add: example_transports_def)
  from exhausted_pool_uses_static_fallback [OF free ex cfg sent] free
  show ?thesis by (simp add: example_world_def)
qed

text \<open>
  Claim C8. \<^verbatim>\<open>receiveEmails\<close> answers the empty list, without any call, for a premium
  user, and for any user when one of the three smtp.dev values is absent; so missing
  credentials never raise an error. For a free-tier user with all three values present it
  makes one GET and answers the \<^verbatim>\<open>member\<close> list of the response (the empty list when the
  response has none); the only error it can answer is one raised by that GET.
\<close>

theorem receiveEmails_dispatch:
  "(isPro u \<longrightarrow> receiveEmails T env u w = (Inr [], w)) \<and>
   (\<not> isPro u \<and> truthy (SMTPDEV_API_KEY env) \<and> truthy (SMTPDEV_ACCOUNT_ID env) \<and>
      truthy (SMTPDEV_MAILBOX_ID env) \<longrightarrow>
      snd (receiveEmails T env u w) =
        log_event (SmtpDevGet \<lparr>sg_account = str_of (SMTPDEV_ACCOUNT_ID env),
                               sg_mailbox = str_of (SMTPDEV_MAILBOX_ID env),
                               sg_api_key = str_of (SMTPDEV_API_KEY env)\<rparr>) w \<and>
      fst (receiveEmails T env u w) =
        (case smtpdev_get_messages T (trace w)
                \<lparr>sg_account = str_of (SMTPDEV_ACCOUNT_ID env),
                 sg_mailbox = str_of (SMTPDEV_MAILBOX_ID env),
                 sg_api_key = str_of (SMTPDEV_API_KEY env)\<rparr> of
           Inr (Some ms) \<Rightarrow> Inr ms
         | Inr None \<Rightarrow> Inr []
         | Inl e \<Rightarrow> Inl e)) \<and>
   (\<not> (truthy (SMTPDEV_API_KEY env) \<and> truthy (SMTPDEV_ACCOUNT_ID env) \<and>
        truthy (SMTPDEV_MAILBOX_ID env)) \<longrightarrow>
      receiveEmails T env u w = (Inr [], w))"
  by (auto simp: receiveEmails_def Let_def split: sum.splits option.splits)

theorem receiveEmails_dispatch_witness:
  "isPro premium_user \<and> \<not> isPro example_user \<and>
   receiveEmails (example_transports (Inr (Reply ''sent''))) env_static_and_smtpdev premium_user
       (example_world [] [] (\<lambda>i. 1000)) = (Inr [], example_world [] [] (\<lambda>i. 1000)) \<and>
   fst (receiveEmails (example_transports (Inr (Reply ''sent''))) env_static_and_smtpdev example_user
       (example_world [] [] (\<lambda>i. 1000))) = Inr [''m1'', ''m2''] \<and>
   receiveEmails (example_transports (Inr (Reply ''sent''))) env_static example_user
       (example_world [] [] (\<lambda>i. 1000)) = (Inr [], example_world [] [] (\<lambda>i. 1000))"
proof -
  have a: "isPro premium_user" "\<not> isPro example_user"
    by (simp_all add: isPro_def premium_user_def example_user_def)
  have b: "truthy (SMTPDEV_API_KEY env_static_and_smtpdev)"
          "truthy (SMTPDEV_ACCOUNT_ID env_static_and_smtpdev)"
          "truthy (SMTPDEV_MAILBOX_ID env_static_and_smtpdev)"
          "\<not> truthy (SMTPDEV_API_KEY env_static)"
    by (simp_all add: truthy_def example_defs)
  from receiveEmails_dispatch [of premium_user "example_transports (Inr (Reply ''sent''))"
         env_static_and_smtpdev "example_world [] [] (\<lambda>i. 1000)"]
       receiveEmails_dispatch [of example_user "example_transports (Inr (Reply ''sent''))"
         env_static_and_smtpdev "example_world [] [] (\<lambda>i. 1000)"]
       receiveEmails_dispatch [of example_user "example_transports (Inr (Reply ''sent''))"
         env_static "example_world [] [] (\<lambda>i. 1000)"]
       a b
  show ?thesis by (simp add: example_transports_def)
qed

text \<open>
  Claim C9. When the usage record of a domain already exists and its window is unexpired
  at the check (the reading of the clock taken by \<^verbatim>\<open>hasQuota\<close> is less than
  3600000 ms after \<^verbatim>\<open>window_start\<close>), the check writes nothing: the world after it
  is the world before it with one more clock reading taken, so the usage collection,
  and with it the record's \<^verbatim>\<open>window_start\<close> and \<^verbatim>\<open>count\<close>, is what it was.
\<close>

theorem hasQuota_unexpired_no_write:
  assumes "findOneUsage (dc_id d) (smtp_domain_usage w) = Some u"
      and "clock w (reads w) - u_window_start u < 3600000"
  shows "snd (hasQuota d w) = w\<lparr>reads := Suc (reads w)\<rparr> \<and>
         smtp_domain_usage (snd (hasQuota d w)) = smtp_domain_usage w \<and>
         findOneUsage (dc_id d) (smtp_domain_usage (snd (hasQuota d w))) = Some u"
  using assms by (simp add: hasQuota_def getUsageDoc_def newDate_def)

theorem hasQuota_unexpired_no_write_witness:
  "findOneUsage (dc_id (example_domain 0))
      (smtp_domain_usage (example_world [example_domain 0] [example_usage 0 0 1] (\<lambda>i. 1000)))
     = Some (example_usage 0 0 1) \<and>
   snd (hasQuota (example_domain 0) (example_world [example_domain 0] [example_usage 0 0 1] (\<lambda>i. 1000)))
     = (example_world [example_domain 0] [example_usage 0 0 1] (\<lambda>i. 1000))\<lparr>reads := 1\<rparr>"
  using hasQuota_unexpired_no_write [of "example_domain 0"
      "example_world [example_domain 0] [example_usage 0 0 1] (\<lambda>i. 1000)" "example_usage 0 0 1"]
  by (simp add: example_domain_def example_world_def example_usage_def findOneUsage_def)

text \<open>
  Claim C10. When \<^verbatim>\<open>order\<close> is omitted, \<^verbatim>\<open>addDomain\<close> stores the new domain at the end
  of the collection with \<^verbatim>\<open>order\<close> equal to the number of domains stored before the
  call. When the orders stored before were defaulted in the same way (the domain at
  storage position \<open>i\<close> has \<^verbatim>\<open>order = i\<close>), the new domain comes last in the priority
  list: \<^verbatim>\<open>getDomains()\<close> after the call is \<^verbatim>\<open>getDomains()\<close> before it followed by the
  new domain.
\<close>

theorem addDomain_default_order:
  assumes "in_order config = None"
  shows "\<exists>d. fst (addDomain config w) = Some d \<and>
             dc_order d = int (length (smtp_domains w)) \<and>
             smtp_domains (snd (addDomain config w)) = smtp_domains w @ [d] \<and>
             (map dc_order (smtp_domains w) = map int [0..<length (smtp_domains w)] \<longrightarrow>
                getDomains (snd (addDomain config w)) = getDomains w @ [d])"
proof -
  have "\<forall>x \<in> set (smtp_domains w). dc_order x \<le> int (length (smtp_domains w))"
    if "map dc_order (smtp_domains w) = map int [0..<length (smtp_domains w)]"
  proof
    fix x assume "x \<in> set (smtp_domains w)"
    then have "dc_order x \<in> set (map dc_order (smtp_domains w))" by simp
    with that have "dc_order x \<in> set (map int [0..<length (smtp_domains w)])" by simp
    then show "dc_order x \<le> int (length (smtp_domains w))" by auto
  qed
  then show ?thesis using assms
    by (simp add: addDomain_def newDate_def getDomains_def sort_key_snoc Let_def)
qed

theorem addDomain_default_order_witness:
  "in_order example_input = None \<and>
   getDomains (snd (addDomain example_input (example_world [example_domain 0] [] (\<lambda>i. 1000))))
     = [example_domain 0,
        (example_domain 20)\<lparr>dc_order := 1, dc_created_at := 1000\<rparr>]"
proof -
  have h: "in_order example_input = None" by (simp add: example_input_def)
  from addDomain_default_order [OF h, of "example_world [example_domain 0] [] (\<lambda>i. 1000)"] h
  show ?thesis
    by (simp add: addDomain_def getDomains_def newDate_def example_world_def example_domain_def
        example_input_def Let_def)
qed

end
